theory Spec2Isabelle
  imports
    Complex_Main
    "HOL-Library.Char_ord"
    "HOL-Library.List_Lexorder"
    "HOL-Library.Product_Lexorder"
begin

section \<open>The input buffer (\<open>OptimizedInputBuffer\<close>)\<close>

text \<open>
  The buffer owns a \<open>queue.PriorityQueue\<close> of tuples \<open>(priority, time.time(), command)\<close>.
  Python compares tuples lexicographically and strings by code point, which is the order
  of \<^typ>\<open>int \<times> real \<times> string\<close> here. A time stamp is a \<^typ>\<open>real\<close> number of seconds:
  every reading of \<open>time.time()\<close> is an argument of the operation that takes it, and
  the rounding of floating-point subtraction is not modelled.
\<close>

type_synonym entry = "int \<times> real \<times> string"

datatype queue_error = Full | Empty

text \<open>
  \<open>queue.PriorityQueue(maxsize)\<close>: a heap of entries; the model keeps the entries as a
  list in the order they were put. \<open>maxsize \<le> 0\<close> means unbounded.
\<close>

record priority_queue =
  maxsize :: int
  heap :: "entry list"

definition qsize :: "priority_queue \<Rightarrow> int" where
  "qsize q = int (length (heap q))"

text \<open>\<open>put(item, block=False)\<close>: raises \<open>queue.Full\<close> when the queue is bounded and full.\<close>

definition put :: "entry \<Rightarrow> priority_queue \<Rightarrow> queue_error + priority_queue" where
  "put item q =
     (if 0 < maxsize q \<and> maxsize q \<le> qsize q then Inl Full
      else Inr (q\<lparr>heap := heap q @ [item]\<rparr>))"

text \<open>The least entry of a non-empty heap, \<open>x\<close> being the least seen so far.\<close>

fun smallest :: "entry \<Rightarrow> entry list \<Rightarrow> entry" where
  "smallest x [] = x"
| "smallest x (y # ys) = smallest (if y < x then y else x) ys"

text \<open>
  \<open>get(block=False)\<close> and \<open>get_nowait()\<close>: raise \<open>queue.Empty\<close> on an empty queue,
  and otherwise remove and return the least entry (\<open>heapq.heappop\<close>).
\<close>

definition get_nowait :: "priority_queue \<Rightarrow> queue_error + (entry \<times> priority_queue)" where
  "get_nowait q =
     (case heap q of
        [] \<Rightarrow> Inl Empty
      | x # xs \<Rightarrow>
          (let m = smallest x xs in Inr (m, q\<lparr>heap := remove1 m (heap q)\<rparr>)))"

record input_buffer =
  buffer_size :: int
  debounce_ms :: real
  queue :: priority_queue
  last_execution_time :: real

text \<open>\<open>__init__\<close>: the debounce interval is kept in seconds.\<close>

definition OptimizedInputBuffer :: "int \<Rightarrow> int \<Rightarrow> input_buffer" where
  "OptimizedInputBuffer n ms =
     \<lparr>buffer_size = n,
      debounce_ms = real_of_int ms / 1000,
      queue = \<lparr>maxsize = n, heap = []\<rparr>,
      last_execution_time = 0\<rparr>"

text \<open>
  \<open>add_input(command, priority)\<close>. \<open>now\<close> is the clock reading of the first \<open>put\<close>
  and \<open>now'\<close> the reading of the retry. The result is \<open>Inr\<close> of the returned boolean,
  or \<open>Inl\<close> of an exception that leaves the method: the retry's \<open>put\<close> stands in a
  \<open>try\<close> that catches \<open>queue.Empty\<close> only.
\<close>

definition add_input ::
  "string \<Rightarrow> int \<Rightarrow> real \<Rightarrow> real \<Rightarrow> input_buffer \<Rightarrow> (queue_error + bool) \<times> input_buffer" where
  "add_input command priority now now' b =
     (case put (priority, now, command) (queue b) of
        Inr q \<Rightarrow> (Inr True, b\<lparr>queue := q\<rparr>)
      | Inl _ \<Rightarrow>
          (case get_nowait (queue b) of
             Inl _ \<Rightarrow> (Inr False, b)
           | Inr (_, q1) \<Rightarrow>
               (case put (priority, now', command) q1 of
                  Inr q2 \<Rightarrow> (Inr True, b\<lparr>queue := q2\<rparr>)
                | Inl e \<Rightarrow> (Inl e, b\<lparr>queue := q1\<rparr>))))"

text \<open>\<open>get_next()\<close>, with \<open>now\<close> the reading of \<open>time.time()\<close> under the lock.\<close>

definition get_next :: "real \<Rightarrow> input_buffer \<Rightarrow> string option \<times> input_buffer" where
  "get_next now b =
     (if now - last_execution_time b < debounce_ms b then (None, b)
      else
        (case get_nowait (queue b) of
           Inl _ \<Rightarrow> (None, b)
         | Inr ((_, _, command), q) \<Rightarrow>
             (Some command, b\<lparr>queue := q, last_execution_time := now\<rparr>)))"

text \<open>\<open>flush()\<close>: pops until the queue is empty.\<close>

function drain :: "priority_queue \<Rightarrow> priority_queue" where
  "drain q =
     (if heap q = [] then q
      else (case get_nowait q of Inl _ \<Rightarrow> q | Inr (_, q') \<Rightarrow> drain q'))"
  by pat_completeness auto

lemma smallest_mem: "smallest x ys \<in> set (x # ys)"
  by (induction ys arbitrary: x) auto

lemma get_nowait_Inr:
  assumes "get_nowait q = Inr (m, q')"
  shows "m \<in> set (heap q)" and "q' = q\<lparr>heap := remove1 m (heap q)\<rparr>"
proof -
  obtain x xs where h: "heap q = x # xs"
    using assms by (cases "heap q") (auto simp: get_nowait_def)
  with assms have m: "m = smallest x xs" and q': "q' = q\<lparr>heap := remove1 m (heap q)\<rparr>"
    by (auto simp: get_nowait_def Let_def)
  from m h smallest_mem [of x xs] show "m \<in> set (heap q)" by simp
  from q' show "q' = q\<lparr>heap := remove1 m (heap q)\<rparr>" .
qed

lemma get_nowait_length:
  assumes "get_nowait q = Inr (m, q')"
  shows "length (heap q') < length (heap q)"
proof -
  from get_nowait_Inr [OF assms] have "m \<in> set (heap q)" and "heap q' = remove1 m (heap q)"
    by simp_all
  moreover from this have "0 < length (heap q)"
    by (cases "heap q") auto
  ultimately show ?thesis
    by (simp add: length_remove1)
qed

termination drain
  by (relation "measure (\<lambda>q. length (heap q))") (auto dest: get_nowait_length)

declare drain.simps [simp del]

definition flush :: "input_buffer \<Rightarrow> input_buffer" where
  "flush b = b\<lparr>queue := drain (queue b)\<rparr>"

subsection \<open>Single-threaded use: a sequence of calls\<close>

datatype buffer_op = Add string int real real | Next real | Flush

datatype outcome = Added "queue_error + bool" | Got "string option" | Flushed

fun step :: "buffer_op \<Rightarrow> input_buffer \<Rightarrow> outcome \<times> input_buffer" where
  "step (Add command priority now now') b = apfst Added (add_input command priority now now' b)"
| "step (Next now) b = apfst Got (get_next now b)"
| "step Flush b = (Flushed, flush b)"

fun run :: "buffer_op list \<Rightarrow> input_buffer \<Rightarrow> outcome list \<times> input_buffer" where
  "run [] b = ([], b)"
| "run (c # cs) b =
     (case step c b of (r, b') \<Rightarrow> (case run cs b' of (rs, b'') \<Rightarrow> (r # rs, b'')))"

text \<open>What the constructor establishes and every call keeps: the queue is within its bound.\<close>

definition within_capacity :: "input_buffer \<Rightarrow> bool" where
  "within_capacity b \<longleftrightarrow> 1 \<le> maxsize (queue b) \<and> qsize (queue b) \<le> maxsize (queue b)"

subsection \<open>The queue\<close>

lemma smallest_le_first: "smallest x ys \<le> x"
proof (induction ys arbitrary: x)
  case Nil
  then show ?case by simp
next
  case (Cons y ys)
  have "smallest (if y < x then y else x) ys \<le> (if y < x then y else x)"
    by (rule Cons.IH)
  also have "\<dots> \<le> x" by (metis less_imp_le order_refl)
  finally show ?case by simp
qed

lemma smallest_le_rest: "z \<in> set ys \<Longrightarrow> smallest x ys \<le> z"
proof (induction ys arbitrary: x)
  case Nil
  then show ?case by simp
next
  case (Cons y ys)
  show ?case
  proof (cases "z \<in> set ys")
    case True
    then show ?thesis using Cons.IH by simp
  next
    case False
    with Cons.prems have "z = y" by simp
    moreover have "smallest (if y < x then y else x) ys \<le> (if y < x then y else x)"
      by (rule smallest_le_first)
    moreover have "(if y < x then y else x) \<le> y" by (metis not_less order_refl)
    ultimately show ?thesis by (simp del: smallest.simps add: smallest.simps(2))
  qed
qed

lemma smallest_le: "z \<in> set (x # ys) \<Longrightarrow> smallest x ys \<le> z"
  using smallest_le_first [of x ys] smallest_le_rest [of z ys x] by auto

lemma get_nowait_least:
  assumes "get_nowait q = Inr (m, q')" and "z \<in> set (heap q)"
  shows "m \<le> z"
proof -
  obtain x xs where h: "heap q = x # xs"
    using assms by (cases "heap q") (auto simp: get_nowait_def)
  with assms have "m = smallest x xs"
    by (auto simp: get_nowait_def Let_def)
  with smallest_le [of z x xs] assms(2) h show ?thesis by simp
qed

lemma get_nowait_nonempty:
  "heap q \<noteq> [] \<Longrightarrow> \<exists>m. get_nowait q = Inr (m, q\<lparr>heap := remove1 m (heap q)\<rparr>)"
  by (cases "heap q") (auto simp: get_nowait_def Let_def)

lemma get_nowait_Empty: "get_nowait q = Inl e \<Longrightarrow> heap q = []"
  by (cases "heap q") (auto simp: get_nowait_def Let_def)

lemma put_Inr: "put item q = Inr q' \<Longrightarrow> q' = q\<lparr>heap := heap q @ [item]\<rparr>"
  by (auto simp: put_def split: if_splits)

lemma drain_maxsize: "maxsize (drain q) = maxsize q"
proof (induction q rule: drain.induct)
  case (1 q)
  show ?case
  proof (cases "heap q = []")
    case True
    then show ?thesis by (simp add: drain.simps [of q])
  next
    case False
    then obtain m where g: "get_nowait q = Inr (m, q\<lparr>heap := remove1 m (heap q)\<rparr>)"
      using get_nowait_nonempty by blast
    with False "1.IH" show ?thesis
      by (simp add: drain.simps [of q])
  qed
qed

lemma drain_heap: "heap (drain q) = []"
proof (induction q rule: drain.induct)
  case (1 q)
  show ?case
  proof (cases "heap q = []")
    case True
    then show ?thesis by (simp add: drain.simps [of q])
  next
    case False
    then obtain m where g: "get_nowait q = Inr (m, q\<lparr>heap := remove1 m (heap q)\<rparr>)"
      using get_nowait_nonempty by blast
    with False "1.IH" show ?thesis
      by (simp add: drain.simps [of q])
  qed
qed

subsection \<open>What \<open>get_next\<close> and \<open>add_input\<close> do\<close>

lemma get_next_closed:
  "now - last_execution_time b < debounce_ms b \<Longrightarrow> get_next now b = (None, b)"
  by (simp add: get_next_def)

lemma get_next_empty: "heap (queue b) = [] \<Longrightarrow> get_next now b = (None, b)"
  by (simp add: get_next_def get_nowait_def)

text \<open>
  With the gate open and an entry queued, \<open>get_next\<close> returns the command of the least
  entry \<open>(priority, time, command)\<close>, removes that entry and sets the gate clock.
\<close>

lemma get_next_pops_least:
  assumes "debounce_ms b \<le> now - last_execution_time b" and "heap (queue b) \<noteq> []"
  shows "\<exists>p t c. (p, t, c) \<in> set (heap (queue b)) \<and>
           (\<forall>z \<in> set (heap (queue b)). (p, t, c) \<le> z) \<and>
           get_next now b =
             (Some c, b\<lparr>queue := (queue b)\<lparr>heap := remove1 (p, t, c) (heap (queue b))\<rparr>,
                        last_execution_time := now\<rparr>)"
proof -
  from assms(2) obtain m where g:
    "get_nowait (queue b) = Inr (m, (queue b)\<lparr>heap := remove1 m (heap (queue b))\<rparr>)"
    using get_nowait_nonempty by blast
  obtain p t c where m: "m = (p, t, c)" by (cases m)
  have "(p, t, c) \<in> set (heap (queue b))"
    using get_nowait_Inr(1) [OF g] m by simp
  moreover have "\<forall>z \<in> set (heap (queue b)). (p, t, c) \<le> z"
    using get_nowait_least [OF g] m by blast
  moreover have "get_next now b =
      (Some c, b\<lparr>queue := (queue b)\<lparr>heap := remove1 (p, t, c) (heap (queue b))\<rparr>,
                 last_execution_time := now\<rparr>)"
    using assms(1) g m by (simp add: get_next_def)
  ultimately show ?thesis by blast
qed

lemma add_input_within_capacity:
  assumes "within_capacity b"
  shows "fst (add_input command priority now now' b) = Inr True \<and>
         within_capacity (snd (add_input command priority now now' b))"
proof -
  let ?q = "queue b"
  have bound: "1 \<le> maxsize ?q" "qsize ?q \<le> maxsize ?q"
    using assms by (simp_all add: within_capacity_def)
  show ?thesis
  proof (cases "maxsize ?q \<le> qsize ?q")
    case False
    then have p: "put (priority, now, command) ?q = Inr (?q\<lparr>heap := heap ?q @ [(priority, now, command)]\<rparr>)"
      by (simp add: put_def)
    show ?thesis
      using False bound by (simp add: add_input_def p within_capacity_def qsize_def)
  next
    case True
    with bound have full: "put (priority, now, command) ?q = Inl Full"
      by (simp add: put_def)
    from True bound have "heap ?q \<noteq> []"
      by (auto simp: qsize_def)
    then obtain m where g: "get_nowait ?q = Inr (m, ?q\<lparr>heap := remove1 m (heap ?q)\<rparr>)"
      using get_nowait_nonempty by blast
    let ?q1 = "?q\<lparr>heap := remove1 m (heap ?q)\<rparr>"
    have len: "length (heap ?q1) < length (heap ?q)"
      using get_nowait_length [OF g] .
    with bound have room: "\<not> (0 < maxsize ?q1 \<and> maxsize ?q1 \<le> qsize ?q1)"
      by (simp add: qsize_def)
    then have p: "put (priority, now', command) ?q1 = Inr (?q1\<lparr>heap := heap ?q1 @ [(priority, now', command)]\<rparr>)"
      unfolding put_def by (simp only: if_False)
    show ?thesis
      using len bound by (simp add: add_input_def full g p within_capacity_def qsize_def)
  qed
qed

lemma get_next_within_capacity:
  assumes "within_capacity b"
  shows "within_capacity (snd (get_next now b))"
proof (cases "get_nowait (queue b)")
  case (Inl e)
  then show ?thesis using assms by (simp add: get_next_def)
next
  case (Inr r)
  obtain m q' where r: "r = (m, q')" by (cases r)
  obtain p t c where m: "m = (p, t, c)" by (cases m)
  from Inr r have g: "get_nowait (queue b) = Inr (m, q')" by simp
  have "maxsize q' = maxsize (queue b)" "length (heap q') < length (heap (queue b))"
    using get_nowait_Inr(2) [OF g] get_nowait_length [OF g] by simp_all
  then show ?thesis
    using assms g m by (simp add: get_next_def within_capacity_def qsize_def)
qed

lemma flush_within_capacity:
  assumes "within_capacity b"
  shows "within_capacity (flush b)"
  using assms by (simp add: flush_def within_capacity_def qsize_def drain_maxsize drain_heap)

lemma init_within_capacity: "1 \<le> n \<Longrightarrow> within_capacity (OptimizedInputBuffer n ms)"
  by (simp add: within_capacity_def OptimizedInputBuffer_def qsize_def)

lemma step_within_capacity:
  assumes "within_capacity b"
  shows "within_capacity (snd (step c b))"
proof (cases c)
  case (Add command priority now now')
  then show ?thesis
    using add_input_within_capacity [OF assms, of command priority now now'] by simp
next
  case (Next now)
  then show ?thesis
    using get_next_within_capacity [OF assms, of now] by simp
next
  case Flush
  then show ?thesis using flush_within_capacity [OF assms] by simp
qed

lemma run_adds_true:
  assumes "within_capacity b" and "Added r \<in> set (fst (run cs b))"
  shows "r = Inr True"
  using assms
proof (induction cs arbitrary: b)
  case Nil
  then show ?case by simp
next
  case (Cons c cs)
  obtain o1 b1 where s: "step c b = (o1, b1)" by (cases "step c b")
  obtain os b2 where t: "run cs b1 = (os, b2)" by (cases "run cs b1")
  have w1: "within_capacity b1"
    using step_within_capacity [OF Cons.prems(1), of c] s by simp
  from Cons.prems(2) s t have "Added r = o1 \<or> Added r \<in> set os" by auto
  then show ?case
  proof
    assume a: "Added r = o1"
    show ?thesis
    proof (cases c)
      case (Add command priority now now')
      with s a add_input_within_capacity [OF Cons.prems(1), of command priority now now']
      show ?thesis by (cases "add_input command priority now now' b") auto
    next
      case (Next now)
      with s a show ?thesis by (cases "get_next now b") auto
    next
      case Flush
      with s a show ?thesis by auto
    qed
  next
    assume "Added r \<in> set os"
    with Cons.IH [OF w1] t show ?thesis by simp
  qed
qed

subsection \<open>Claims about the input buffer\<close>

text \<open>
  Claim C1: with the gate open and the queue non-empty, \<open>get_next\<close> pops and returns the
  item with the highest priority, ties broken by the earliest arrival, and resets the gate
  clock. The queue is a min-heap on \<open>(priority, time, command)\<close>, so the call returns
  the entry with the \<^emph>\<open>lowest\<close> priority number: with \<open>urgent\<close> (priority 5, arrived at
  1.0) and \<open>routine\<close> (priority 0, arrived at 2.0) queued, the call at 10.0 returns
  \<open>routine\<close> and leaves \<open>urgent\<close> queued. The same end of the heap is the one that
  \<open>add_input\<close> removes under the comment "Remove lowest priority item".
\<close>

theorem get_next_returns_lowest_priority:
  "get_next 10
     (snd (add_input ''routine'' 0 2 2
       (snd (add_input ''urgent'' 5 1 1 (OptimizedInputBuffer 10 50))))) =
   (Some ''routine'',
    \<lparr>buffer_size = 10, debounce_ms = 50 / 1000,
     queue = \<lparr>maxsize = 10, heap = [(5, 1, ''urgent'')]\<rparr>,
     last_execution_time = 10\<rparr>)"
  by (simp add: get_next_def add_input_def put_def get_nowait_def qsize_def
      OptimizedInputBuffer_def)



text \<open>
  Claim C9: a buffer constructed with capacity at least 1 and used by one thread never
  sees \<open>add_input\<close> return \<open>False\<close> or raise: in every sequence of calls on it, every
  \<open>add_input\<close> returns \<open>True\<close>.
\<close>

theorem add_input_always_true:
  assumes "1 \<le> n" and "Added r \<in> set (fst (run cs (OptimizedInputBuffer n ms)))"
  shows "r = Inr True"
  using run_adds_true [OF init_within_capacity [OF assms(1)] assms(2)] .

theorem add_input_always_true_witness:
  "(1 :: int) \<le> 1 \<and>
   Added (Inr True) \<in> set (fst (run [Add ''a'' 0 1 1, Add ''b'' 3 2 2] (OptimizedInputBuffer 1 50))) \<and>
   fst (run [Add ''a'' 0 1 1, Add ''b'' 3 2 2] (OptimizedInputBuffer 1 50)) =
     [Added (Inr True), Added (Inr True)]"
proof -
  have h: "(1 :: int) \<le> 1" by simp
  have r: "fst (run [Add ''a'' 0 1 1, Add ''b'' 3 2 2] (OptimizedInputBuffer 1 50)) =
     [Added (Inr True), Added (Inr True)]"
    by (simp add: add_input_def put_def get_nowait_def qsize_def OptimizedInputBuffer_def)
  then have m: "Added (Inr True) \<in> set (fst (run [Add ''a'' 0 1 1, Add ''b'' 3 2 2] (OptimizedInputBuffer 1 50)))"
    by simp
  from add_input_always_true [OF h m] h m r show ?thesis by simp
qed

lemma get_next_cases:
  "get_next now b = (None, b) \<or>
   (\<exists>c q. get_next now b = (Some c, b\<lparr>queue := q, last_execution_time := now\<rparr>))"
proof (cases "now - last_execution_time b < debounce_ms b")
  case True
  then show ?thesis by (simp add: get_next_def)
next
  case False
  show ?thesis
  proof (cases "get_nowait (queue b)")
    case (Inl e)
    with False show ?thesis by (simp add: get_next_def)
  next
    case (Inr r)
    obtain p t c q where "r = ((p, t, c), q)" by (metis prod_cases3 surj_pair)
    with False Inr have "get_next now b = (Some c, b\<lparr>queue := q, last_execution_time := now\<rparr>)"
      by (simp add: get_next_def)
    then show ?thesis by blast
  qed
qed

lemma get_next_open:
  assumes "debounce_ms b \<le> now - last_execution_time b" and "heap (queue b) \<noteq> []"
  shows "\<exists>c m. get_next now b =
           (Some c, b\<lparr>queue := (queue b)\<lparr>heap := remove1 m (heap (queue b))\<rparr>,
                      last_execution_time := now\<rparr>) \<and> m \<in> set (heap (queue b))"
  using get_next_pops_least [OF assms] by blast

text \<open>
  Claim C5, as stated, says that from every buffer state two calls of \<open>get_next\<close> spaced
  at least D apart, with items queued, both return a value. It fails right after a
  successful return: the buffer below returned \<open>a\<close> at 100.00 and holds two more items;
  the calls at 100.01 and 100.06 are D = 0.05 apart, and the first returns nothing.
\<close>

theorem spaced_calls_first_call_gated:
  "debounce_ms (snd (run [Add ''a'' 0 99 99, Add ''b'' 0 99 99, Add ''c'' 0 99 99, Next 100]
       (OptimizedInputBuffer 10 50))) \<le> 10006 / 100 - 10001 / 100 \<and>
   length (heap (queue (snd (run [Add ''a'' 0 99 99, Add ''b'' 0 99 99, Add ''c'' 0 99 99, Next 100]
       (OptimizedInputBuffer 10 50))))) = 2 \<and>
   fst (get_next (10001 / 100)
     (snd (run [Add ''a'' 0 99 99, Add ''b'' 0 99 99, Add ''c'' 0 99 99, Next 100]
       (OptimizedInputBuffer 10 50)))) = None"
  by (simp add: get_next_def add_input_def put_def get_nowait_def qsize_def
      OptimizedInputBuffer_def)

text \<open>
  Claim C5, amended: two calls of \<open>get_next\<close> fewer than D apart yield at most one value;
  two calls at least D apart, the first of them at least D after the last successful
  return, with at least two items queued, both return a value; a call that returns
  nothing changes neither the gate clock nor the queue, and a call that returns a value
  sets the gate clock to its own time.
\<close>

theorem debounce_gate:
  "(t2 - t1 < debounce_ms b \<longrightarrow>
      fst (get_next t1 b) = None \<or> fst (get_next t2 (snd (get_next t1 b))) = None) \<and>
   (debounce_ms b \<le> t1 - last_execution_time b \<and> debounce_ms b \<le> t2 - t1 \<and>
    2 \<le> length (heap (queue b)) \<longrightarrow>
      fst (get_next t1 b) \<noteq> None \<and> fst (get_next t2 (snd (get_next t1 b))) \<noteq> None) \<and>
   (fst (get_next t b) = None \<longrightarrow> snd (get_next t b) = b) \<and>
   (fst (get_next t b) \<noteq> None \<longrightarrow> last_execution_time (snd (get_next t b)) = t)"
proof -
  have near: "fst (get_next t1 b) = None \<or> fst (get_next t2 (snd (get_next t1 b))) = None"
    if close: "t2 - t1 < debounce_ms b"
    using get_next_cases [of t1 b]
  proof
    assume "get_next t1 b = (None, b)"
    then show ?thesis by simp
  next
    assume "\<exists>c q. get_next t1 b = (Some c, b\<lparr>queue := q, last_execution_time := t1\<rparr>)"
    then obtain c q where g: "get_next t1 b = (Some c, b\<lparr>queue := q, last_execution_time := t1\<rparr>)"
      by blast
    have "get_next t2 (b\<lparr>queue := q, last_execution_time := t1\<rparr>) =
            (None, b\<lparr>queue := q, last_execution_time := t1\<rparr>)"
      using close by (intro get_next_closed) simp
    with g show ?thesis by simp
  qed
  have far: "fst (get_next t1 b) \<noteq> None \<and> fst (get_next t2 (snd (get_next t1 b))) \<noteq> None"
    if h: "debounce_ms b \<le> t1 - last_execution_time b \<and> debounce_ms b \<le> t2 - t1 \<and>
      2 \<le> length (heap (queue b))"
  proof -
    from h have ne: "heap (queue b) \<noteq> []" by auto
    from h get_next_open [OF _ ne, of t1] obtain c m where
      g: "get_next t1 b = (Some c, b\<lparr>queue := (queue b)\<lparr>heap := remove1 m (heap (queue b))\<rparr>,
                                     last_execution_time := t1\<rparr>)"
      and m: "m \<in> set (heap (queue b))"
      by blast
    let ?b1 = "b\<lparr>queue := (queue b)\<lparr>heap := remove1 m (heap (queue b))\<rparr>, last_execution_time := t1\<rparr>"
    have "length (remove1 m (heap (queue b))) = length (heap (queue b)) - 1"
      using m by (simp add: length_remove1)
    with h have ne1: "heap (queue ?b1) \<noteq> []" by auto
    have open1: "debounce_ms ?b1 \<le> t2 - last_execution_time ?b1"
      using h by simp
    from get_next_open [OF open1 ne1] obtain c' where "fst (get_next t2 ?b1) = Some c'"
      by force
    with g show ?thesis by simp
  qed
  have quiet: "snd (get_next t b) = b" if "fst (get_next t b) = None"
    using that get_next_cases [of t b] by auto
  have reset: "last_execution_time (snd (get_next t b)) = t" if "fst (get_next t b) \<noteq> None"
    using that get_next_cases [of t b] by auto
  from near far quiet reset show ?thesis by blast
qed

theorem debounce_gate_witness:
  "1001 / 100 - 10 < debounce_ms (\<lparr>buffer_size = 10, debounce_ms = 50 / 1000, queue = \<lparr>maxsize = 10, heap = [(0, 1, ''a''), (0, 2, ''b'')]\<rparr>, last_execution_time = 0\<rparr> :: input_buffer) \<and>
   fst (get_next 10 \<lparr>buffer_size = 10, debounce_ms = 50 / 1000, queue = \<lparr>maxsize = 10, heap = [(0, 1, ''a''), (0, 2, ''b'')]\<rparr>, last_execution_time = 0\<rparr>) = Some ''a'' \<and>
   fst (get_next (1001 / 100) (snd (get_next 10 \<lparr>buffer_size = 10, debounce_ms = 50 / 1000, queue = \<lparr>maxsize = 10, heap = [(0, 1, ''a''), (0, 2, ''b'')]\<rparr>, last_execution_time = 0\<rparr>))) = None \<and>
   snd (get_next (1001 / 100) (snd (get_next 10 \<lparr>buffer_size = 10, debounce_ms = 50 / 1000, queue = \<lparr>maxsize = 10, heap = [(0, 1, ''a''), (0, 2, ''b'')]\<rparr>, last_execution_time = 0\<rparr>))) = snd (get_next 10 \<lparr>buffer_size = 10, debounce_ms = 50 / 1000, queue = \<lparr>maxsize = 10, heap = [(0, 1, ''a''), (0, 2, ''b'')]\<rparr>, last_execution_time = 0\<rparr>) \<and>
   debounce_ms (\<lparr>buffer_size = 10, debounce_ms = 50 / 1000, queue = \<lparr>maxsize = 10, heap = [(0, 1, ''a''), (0, 2, ''b'')]\<rparr>, last_execution_time = 0\<rparr> :: input_buffer) \<le> 10 - last_execution_time (\<lparr>buffer_size = 10, debounce_ms = 50 / 1000, queue = \<lparr>maxsize = 10, heap = [(0, 1, ''a''), (0, 2, ''b'')]\<rparr>, last_execution_time = 0\<rparr> :: input_buffer) \<and>
   debounce_ms (\<lparr>buffer_size = 10, debounce_ms = 50 / 1000, queue = \<lparr>maxsize = 10, heap = [(0, 1, ''a''), (0, 2, ''b'')]\<rparr>, last_execution_time = 0\<rparr> :: input_buffer) \<le> 11 - 10 \<and>
   2 \<le> length (heap (queue (\<lparr>buffer_size = 10, debounce_ms = 50 / 1000, queue = \<lparr>maxsize = 10, heap = [(0, 1, ''a''), (0, 2, ''b'')]\<rparr>, last_execution_time = 0\<rparr> :: input_buffer))) \<and>
   fst (get_next 11 (snd (get_next 10 \<lparr>buffer_size = 10, debounce_ms = 50 / 1000, queue = \<lparr>maxsize = 10, heap = [(0, 1, ''a''), (0, 2, ''b'')]\<rparr>, last_execution_time = 0\<rparr>))) = Some ''b'' \<and>
   last_execution_time (snd (get_next 10 \<lparr>buffer_size = 10, debounce_ms = 50 / 1000, queue = \<lparr>maxsize = 10, heap = [(0, 1, ''a''), (0, 2, ''b'')]\<rparr>, last_execution_time = 0\<rparr>)) = 10"
  using
    debounce_gate [of "1001 / 100" 10 "\<lparr>buffer_size = 10, debounce_ms = 50 / 1000, queue = \<lparr>maxsize = 10, heap = [(0, 1, ''a''), (0, 2, ''b'')]\<rparr>, last_execution_time = 0\<rparr>" "1001 / 100"]
    debounce_gate [of 11 10 "\<lparr>buffer_size = 10, debounce_ms = 50 / 1000, queue = \<lparr>maxsize = 10, heap = [(0, 1, ''a''), (0, 2, ''b'')]\<rparr>, last_execution_time = 0\<rparr>" 10]
    debounce_gate [of 11 10 "snd (get_next 10 \<lparr>buffer_size = 10, debounce_ms = 50 / 1000, queue = \<lparr>maxsize = 10, heap = [(0, 1, ''a''), (0, 2, ''b'')]\<rparr>, last_execution_time = 0\<rparr>)" "1001 / 100"]
  by (simp add: get_next_def get_nowait_def)

section \<open>The decision logger (\<open>AdvancedTrainingDataLogger\<close>)\<close>

text \<open>
  \<open>AudioTextRecord\<close>. The fields \<open>id\<close> and \<open>text\<close> are \<open>record_id\<close> and \<open>record_text\<close>
  here; the floats \<open>confidence\<close> and \<open>response_time_ms\<close> are real numbers.
\<close>

record audio_text_record =
  record_id :: string
  record_text :: string
  command_matched :: string
  confidence :: real
  timestamp :: string
  source :: string
  language :: string
  user_id :: string
  response_time_ms :: real

text \<open>
  The logger's two stores: the rows of the SQLite table \<open>training_data_v53\<close>, whose
  column \<open>id\<close> is the primary key, and the contents of the JSONL file. Both outlive the
  process, so a logger may start on stores that already hold data. The storage calls are
  taken to succeed.
\<close>

record training_logger =
  db :: "audio_text_record list"
  jsonl :: string

text \<open>
  \<open>INSERT OR REPLACE\<close>: a row with the same primary key is deleted before the new row is
  inserted.
\<close>

definition insert_or_replace ::
  "audio_text_record \<Rightarrow> audio_text_record list \<Rightarrow> audio_text_record list" where
  "insert_or_replace r rows = filter (\<lambda>x. record_id x \<noteq> record_id r) rows @ [r]"

text \<open>
  \<open>log_text(record)\<close>. \<open>to_json\<close> is the record's \<open>to_json()\<close>, that is
  \<open>json.dumps(asdict(record))\<close>, a function of the \<open>json\<close> library; the file is opened
  for appending and receives that text and a line feed.
\<close>

definition log_text ::
  "(audio_text_record \<Rightarrow> string) \<Rightarrow> audio_text_record \<Rightarrow> training_logger \<Rightarrow> training_logger" where
  "log_text to_json r lg =
     \<lparr>db = insert_or_replace r (db lg),
      jsonl = jsonl lg @ to_json r @ [CHR 0x0A]\<rparr>"

text \<open>
  \<open>get_statistics()\<close>: \<open>COUNT(*)\<close> and the two \<open>GROUP BY\<close> counts, each group a key of
  the returned dictionary. The file size and the rounded averages, minima and maxima are
  floating-point values and are left out.
\<close>

record statistics =
  total_entries :: nat
  by_language :: "string \<rightharpoonup> nat"
  by_command :: "string \<rightharpoonup> nat"

definition group_count ::
  "(audio_text_record \<Rightarrow> string) \<Rightarrow> audio_text_record list \<Rightarrow> string \<rightharpoonup> nat" where
  "group_count col rows k =
     (let n = length (filter (\<lambda>r. col r = k) rows) in if n = 0 then None else Some n)"

definition get_statistics :: "training_logger \<Rightarrow> statistics" where
  "get_statistics lg =
     \<lparr>total_entries = length (db lg),
      by_language = group_count language (db lg),
      by_command = group_count command_matched (db lg)\<rparr>"

text \<open>The row stored under an id, and the number of lines of the JSONL file.\<close>

definition stored :: "training_logger \<Rightarrow> string \<Rightarrow> audio_text_record option" where
  "stored lg k = find (\<lambda>r. record_id r = k) (db lg)"

definition line_count :: "string \<Rightarrow> nat" where
  "line_count s = length (filter (\<lambda>c. c = CHR 0x0A) s)"

text \<open>The primary key constraint: no two rows share an id.\<close>

definition primary_key :: "audio_text_record list \<Rightarrow> bool" where
  "primary_key rows \<longleftrightarrow> distinct (map record_id rows)"

text \<open>A run of \<open>log_text\<close> calls.\<close>

fun log_all ::
  "(audio_text_record \<Rightarrow> string) \<Rightarrow> audio_text_record list \<Rightarrow> training_logger \<Rightarrow> training_logger" where
  "log_all to_json [] lg = lg"
| "log_all to_json (r # rs) lg = log_all to_json rs (log_text to_json r lg)"

subsection \<open>Rows and lines\<close>

lemma primary_key_insert_or_replace:
  "primary_key rows \<Longrightarrow> primary_key (insert_or_replace r rows)"
  by (auto simp: primary_key_def insert_or_replace_def distinct_map_filter)

lemma ids_insert_or_replace:
  "record_id ` set (insert_or_replace r rows) = insert (record_id r) (record_id ` set rows)"
  by (auto simp: insert_or_replace_def)

lemma length_filter_key:
  assumes "distinct (map f xs)" and "k \<in> f ` set xs"
  shows "Suc (length (filter (\<lambda>x. f x \<noteq> k) xs)) = length xs"
  using assms
proof (induction xs)
  case Nil
  then show ?case by simp
next
  case (Cons x xs)
  show ?case
  proof (cases "f x = k")
    case True
    with Cons.prems have "k \<notin> f ` set xs" by auto
    then have "filter (\<lambda>x. f x \<noteq> k) xs = xs"
      by (auto simp: filter_id_conv)
    with True show ?thesis by simp
  next
    case False
    with Cons show ?thesis by auto
  qed
qed

lemma length_insert_or_replace_present:
  assumes "primary_key rows" and "record_id r \<in> record_id ` set rows"
  shows "length (insert_or_replace r rows) = length rows"
  using length_filter_key [of record_id rows "record_id r"] assms
  by (simp add: insert_or_replace_def primary_key_def)

lemma length_insert_or_replace_absent:
  assumes "record_id r \<notin> record_id ` set rows"
  shows "length (insert_or_replace r rows) = Suc (length rows)"
proof -
  have "\<forall>x \<in> set rows. record_id x \<noteq> record_id r"
    using assms by (metis imageI)
  then have "filter (\<lambda>x. record_id x \<noteq> record_id r) rows = rows"
    by (simp add: filter_id_conv)
  then show ?thesis by (simp add: insert_or_replace_def)
qed

lemma find_snoc:
  "find P (xs @ [r]) = (case find P xs of None \<Rightarrow> if P r then Some r else None | Some x \<Rightarrow> Some x)"
  by (induction xs) simp_all

lemma find_insert_or_replace:
  "find (\<lambda>x. record_id x = record_id r) (insert_or_replace r rows) = Some r"
proof -
  have "find (\<lambda>x. record_id x = record_id r) (filter (\<lambda>x. record_id x \<noteq> record_id r) rows) = None"
    by (simp add: find_None_iff)
  then show ?thesis
    by (simp add: insert_or_replace_def find_snoc)
qed

lemma log_all_primary_key:
  "primary_key (db lg) \<Longrightarrow> primary_key (db (log_all to_json rs lg))"
  by (induction rs arbitrary: lg) (simp_all add: log_text_def primary_key_insert_or_replace)

lemma log_all_ids:
  "record_id ` set (db (log_all to_json rs lg)) = record_id ` set rs \<union> record_id ` set (db lg)"
proof (induction rs arbitrary: lg)
  case Nil
  then show ?case by simp
next
  case (Cons r rs)
  have "record_id ` set (db (log_all to_json (r # rs) lg)) =
          record_id ` set rs \<union> record_id ` set (insert_or_replace r (db lg))"
    using Cons.IH [of "log_text to_json r lg"] by (simp add: log_text_def)
  also have "\<dots> = record_id ` set (r # rs) \<union> record_id ` set (db lg)"
    by (simp only: ids_insert_or_replace) auto
  finally show ?case .
qed

lemma line_count_append: "line_count (s @ t) = line_count s + line_count t"
  by (simp add: line_count_def)

lemma line_count_no_feed: "CHR 0x0A \<notin> set s \<Longrightarrow> line_count s = 0"
  by (auto simp: line_count_def filter_empty_conv)

subsection \<open>Claims about the logger\<close>

text \<open>
  Claim C7: after a record has been logged, and whatever has been logged since, logging a
  record with the same id again replaces the stored row of that id and leaves
  \<open>get_statistics().total_entries\<close> unchanged.
\<close>

theorem relog_overwrites:
  assumes "primary_key (db lg)" and "record_id r' = record_id r"
  shows "total_entries (get_statistics (log_text to_json r' (log_all to_json rs (log_text to_json r lg)))) =
           total_entries (get_statistics (log_all to_json rs (log_text to_json r lg))) \<and>
         stored (log_text to_json r' (log_all to_json rs (log_text to_json r lg))) (record_id r) = Some r' \<and>
         primary_key (db (log_text to_json r' (log_all to_json rs (log_text to_json r lg))))"
proof -
  let ?s = "log_all to_json rs (log_text to_json r lg)"
  have pk: "primary_key (db ?s)"
    using assms(1) by (intro log_all_primary_key) (simp add: log_text_def primary_key_insert_or_replace)
  have "record_id r \<in> record_id ` set (db (log_text to_json r lg))"
    by (simp add: log_text_def ids_insert_or_replace)
  then have present: "record_id r' \<in> record_id ` set (db ?s)"
    using assms(2) by (simp add: log_all_ids)
  have "length (db (log_text to_json r' ?s)) = length (db ?s)"
    using length_insert_or_replace_present [OF pk present] by (simp add: log_text_def)
  moreover have "stored (log_text to_json r' ?s) (record_id r) = Some r'"
    using find_insert_or_replace [of r' "db ?s"] assms(2) by (simp add: stored_def log_text_def)
  moreover have "primary_key (db (log_text to_json r' ?s))"
    using pk by (simp add: log_text_def primary_key_insert_or_replace)
  ultimately show ?thesis by (simp add: get_statistics_def)
qed

theorem relog_overwrites_witness:
  "primary_key (db \<lparr>db = [], jsonl = []\<rparr>) \<and>
   total_entries (get_statistics
     (log_text record_id
        \<lparr>record_id = ''k1'', record_text = ''next please'', command_matched = ''next_slide'',
         confidence = 9 / 10, timestamp = ''t3'', source = ''google'', language = ''en'',
         user_id = ''default'', response_time_ms = 2\<rparr>
     (log_all record_id
        [\<lparr>record_id = ''k2'', record_text = ''back'', command_matched = ''prev_slide'',
          confidence = 8 / 10, timestamp = ''t2'', source = ''google'', language = ''en'',
          user_id = ''default'', response_time_ms = 1\<rparr>]
     (log_text record_id
        \<lparr>record_id = ''k1'', record_text = ''next'', command_matched = ''next_slide'',
         confidence = 95 / 100, timestamp = ''t1'', source = ''google'', language = ''en'',
         user_id = ''default'', response_time_ms = 1\<rparr>
        \<lparr>db = [], jsonl = []\<rparr>)))) = 2"
  using relog_overwrites [of "\<lparr>db = [], jsonl = []\<rparr>"
      "\<lparr>record_id = ''k1'', record_text = ''next please'', command_matched = ''next_slide'',
         confidence = 9 / 10, timestamp = ''t3'', source = ''google'', language = ''en'',
         user_id = ''default'', response_time_ms = 2\<rparr>"
      "\<lparr>record_id = ''k1'', record_text = ''next'', command_matched = ''next_slide'',
         confidence = 95 / 100, timestamp = ''t1'', source = ''google'', language = ''en'',
         user_id = ''default'', response_time_ms = 1\<rparr>"
      record_id
      "[\<lparr>record_id = ''k2'', record_text = ''back'', command_matched = ''prev_slide'',
          confidence = 8 / 10, timestamp = ''t2'', source = ''google'', language = ''en'',
          user_id = ''default'', response_time_ms = 1\<rparr>]"]
  by (simp add: primary_key_def get_statistics_def log_text_def insert_or_replace_def)

text \<open>
  Claim C10: every call of \<open>log_text\<close> appends the record's JSON text and a line feed to
  the JSONL file, which is one more line since \<open>json.dumps\<close> writes no line feed; when
  the id is already stored, the call leaves the number of rows of the table unchanged
  and still adds a line to the file.
\<close>

theorem relog_appends_line:
  "jsonl (log_text to_json x lg0) = jsonl lg0 @ to_json x @ [CHR 0x0A] \<and>
   (CHR 0x0A \<notin> set (to_json x) \<longrightarrow>
      line_count (jsonl (log_text to_json x lg0)) = Suc (line_count (jsonl lg0))) \<and>
   (primary_key (db lg) \<and> record_id r' = record_id r \<and> CHR 0x0A \<notin> set (to_json r') \<longrightarrow>
      length (db (log_text to_json r' (log_all to_json rs (log_text to_json r lg)))) =
        length (db (log_all to_json rs (log_text to_json r lg))) \<and>
      line_count (jsonl (log_text to_json r' (log_all to_json rs (log_text to_json r lg)))) =
        Suc (line_count (jsonl (log_all to_json rs (log_text to_json r lg)))))"
proof -
  have appended: "jsonl (log_text to_json y s) = jsonl s @ to_json y @ [CHR 0x0A]" for y s
    by (simp add: log_text_def)
  have one_line: "line_count (jsonl (log_text to_json y s)) = Suc (line_count (jsonl s))"
    if "CHR 0x0A \<notin> set (to_json y)" for y s
    using that by (simp add: appended line_count_append line_count_no_feed) (simp add: line_count_def)
  have rows: "length (db (log_text to_json r' (log_all to_json rs (log_text to_json r lg)))) =
        length (db (log_all to_json rs (log_text to_json r lg)))"
    if pk0: "primary_key (db lg)" and same: "record_id r' = record_id r"
  proof -
    let ?s = "log_all to_json rs (log_text to_json r lg)"
    have pk: "primary_key (db ?s)"
      using pk0 by (intro log_all_primary_key) (simp add: log_text_def primary_key_insert_or_replace)
    have "record_id r \<in> record_id ` set (db (log_text to_json r lg))"
      by (simp add: log_text_def ids_insert_or_replace)
    then have present: "record_id r' \<in> record_id ` set (db ?s)"
      using same by (simp add: log_all_ids)
    show ?thesis
      using length_insert_or_replace_present [OF pk present] by (simp add: log_text_def)
  qed
  from appended one_line rows show ?thesis by blast
qed

theorem relog_appends_line_witness:
  "primary_key (db \<lparr>db = [], jsonl = []\<rparr>) \<and>
   CHR 0x0A \<notin> set (record_id \<lparr>record_id = ''k1'', record_text = ''next'', command_matched = ''next_slide'', confidence = 95 / 100, timestamp = ''t1'', source = ''google'', language = ''en'', user_id = ''default'', response_time_ms = 1\<rparr>) \<and>
   length (db (log_text record_id \<lparr>record_id = ''k1'', record_text = ''next'', command_matched = ''next_slide'', confidence = 95 / 100, timestamp = ''t1'', source = ''google'', language = ''en'', user_id = ''default'', response_time_ms = 1\<rparr> \<lparr>db = [], jsonl = []\<rparr>)) = 1 \<and>
   line_count (jsonl (log_text record_id \<lparr>record_id = ''k1'', record_text = ''next'', command_matched = ''next_slide'', confidence = 95 / 100, timestamp = ''t1'', source = ''google'', language = ''en'', user_id = ''default'', response_time_ms = 1\<rparr> \<lparr>db = [], jsonl = []\<rparr>)) = 1 \<and>
   length (db (log_text record_id \<lparr>record_id = ''k1'', record_text = ''next'', command_matched = ''next_slide'', confidence = 95 / 100, timestamp = ''t1'', source = ''google'', language = ''en'', user_id = ''default'', response_time_ms = 1\<rparr>
     (log_text record_id \<lparr>record_id = ''k1'', record_text = ''next'', command_matched = ''next_slide'', confidence = 95 / 100, timestamp = ''t1'', source = ''google'', language = ''en'', user_id = ''default'', response_time_ms = 1\<rparr> \<lparr>db = [], jsonl = []\<rparr>))) = 1 \<and>
   line_count (jsonl (log_text record_id \<lparr>record_id = ''k1'', record_text = ''next'', command_matched = ''next_slide'', confidence = 95 / 100, timestamp = ''t1'', source = ''google'', language = ''en'', user_id = ''default'', response_time_ms = 1\<rparr>
     (log_text record_id \<lparr>record_id = ''k1'', record_text = ''next'', command_matched = ''next_slide'', confidence = 95 / 100, timestamp = ''t1'', source = ''google'', language = ''en'', user_id = ''default'', response_time_ms = 1\<rparr> \<lparr>db = [], jsonl = []\<rparr>))) = 2"
  using relog_appends_line [of record_id "\<lparr>record_id = ''k1'', record_text = ''next'', command_matched = ''next_slide'', confidence = 95 / 100, timestamp = ''t1'', source = ''google'', language = ''en'', user_id = ''default'', response_time_ms = 1\<rparr>" "\<lparr>db = [], jsonl = []\<rparr>" "\<lparr>db = [], jsonl = []\<rparr>" "\<lparr>record_id = ''k1'', record_text = ''next'', command_matched = ''next_slide'', confidence = 95 / 100, timestamp = ''t1'', source = ''google'', language = ''en'', user_id = ''default'', response_time_ms = 1\<rparr>" "\<lparr>record_id = ''k1'', record_text = ''next'', command_matched = ''next_slide'', confidence = 95 / 100, timestamp = ''t1'', source = ''google'', language = ''en'', user_id = ''default'', response_time_ms = 1\<rparr>" "[]"]
  by (simp add: primary_key_def log_text_def insert_or_replace_def line_count_def)

section \<open>Languages and the language detector (\<open>MultiLanguageDetector\<close>)\<close>

text \<open>
  A Python \<open>str\<close> is a sequence of code points. A \<^typ>\<open>string\<close> here is a sequence of
  characters with code points below 256 (Latin-1), each \<^typ>\<open>char\<close> being its code point:
  the transcripts of this model are the Latin-1 texts.
\<close>

datatype language =
  ENGLISH | SPANISH | FRENCH | GERMAN | ITALIAN | PORTUGUESE | CHINESE | JAPANESE




text \<open>
  \<open>str.isspace\<close> on one character, \<open>str.strip()\<close> and \<open>str.startswith\<close>. The white
  space of Latin-1 is U+0009 to U+000D, U+001C to U+0020, U+0085 and U+00A0.
\<close>

definition isspace :: "char \<Rightarrow> bool" where
  "isspace c \<longleftrightarrow>
     (let n = (of_char c :: nat)
      in (9 \<le> n \<and> n \<le> 13) \<or> (28 \<le> n \<and> n \<le> 32) \<or> n = 133 \<or> n = 160)"













subsection \<open>The result of \<open>detect\<close> does not depend on the counters\<close>







subsection \<open>The claim about \<open>detect_batch\<close>\<close>



section \<open>The command catalogue and the matcher\<close>

subsection \<open>Regular expressions\<close>

text \<open>
  The trigger patterns are Python regular expressions, compiled with \<open>re.IGNORECASE\<close>.
  The patterns of the catalogue use literal characters, the alternation \<open>(?:a|b)\<close>,
  \<open>\s*\<close> and the capturing group \<open>(\d+)\<close>; a pattern is written here as its syntax tree,
  \<open>Group n\<close> being the capturing group number \<open>n\<close>. \<open>Wide\<close> is a literal of code
  points above U+00FF, kept as numbers: the Chinese and Japanese triggers, whose
  characters have no case and match no character of a Latin-1 text.
\<close>

datatype char_class = Space | Digit

datatype regex =
  Lit string
| Wide "nat list"
| Alt regex regex
| Seq regex regex
| Star char_class
| Plus char_class
| Group nat regex

text \<open>
  \<open>str.lower\<close> on one character of Latin-1: A to Z and U+00C0 to U+00DE without the
  multiplication sign U+00D7 move up by 32. Under \<open>re.IGNORECASE\<close> two characters of
  Latin-1 match when their lower cases agree.
\<close>

definition lower :: "char \<Rightarrow> char" where
  "lower c =
     (let n = (of_char c :: nat)
      in if (65 \<le> n \<and> n \<le> 90) \<or> (192 \<le> n \<and> n \<le> 222 \<and> n \<noteq> 215) then char_of (n + 32) else c)"

definition isdigit :: "char \<Rightarrow> bool" where
  "isdigit c \<longleftrightarrow> (let n = (of_char c :: nat) in 48 \<le> n \<and> n \<le> 57)"

fun in_class :: "char_class \<Rightarrow> char \<Rightarrow> bool" where
  "in_class Space c = isspace c"
| "in_class Digit c = isdigit c"

text \<open>
  A state of the matcher is the input that is left and the groups captured so far. \<open>ms r x\<close>
  lists the states in which a match of \<open>r\<close> from state \<open>x\<close> can end, in the order in
  which the backtracking matcher of \<open>re\<close> tries them: the left alternative first, the
  longest repetition first.
\<close>

type_synonym match_state = "string \<times> (nat \<times> string) list"

fun ms :: "regex \<Rightarrow> match_state \<Rightarrow> match_state list" where
  "ms (Lit p) (s, caps) =
     (if map lower (take (length p) s) = map lower p then [(drop (length p) s, caps)] else [])"
| "ms (Wide w) (s, caps) = []"
| "ms (Alt a b) x = ms a x @ ms b x"
| "ms (Seq a b) x = concat (map (ms b) (ms a x))"
| "ms (Star k) (s, caps) =
     map (\<lambda>n. (drop n s, caps)) (rev [0..<Suc (length (takeWhile (in_class k) s))])"
| "ms (Plus k) (s, caps) =
     map (\<lambda>n. (drop n s, caps)) (rev [1..<Suc (length (takeWhile (in_class k) s))])"
| "ms (Group n r) (s, caps) =
     map (\<lambda>(s', caps'). (s', (n, take (length s - length s') s) # caps')) (ms r (s, caps))"

text \<open>
  \<open>pattern.search(text)\<close>: the first match at the leftmost position that has one; the
  result is the match's captured groups, or \<open>None\<close>.
\<close>

fun search :: "regex \<Rightarrow> string \<Rightarrow> (nat \<times> string) list option" where
  "search r [] = (case ms r ([], []) of [] \<Rightarrow> None | (_, caps) # _ \<Rightarrow> Some caps)"
| "search r (c # s) =
     (case ms r (c # s, []) of [] \<Rightarrow> search r s | (_, caps) # _ \<Rightarrow> Some caps)"

text \<open>
  The number of groups of a pattern and \<open>match.groups()\<close>: the text of every group, in
  the order of their numbers, \<open>None\<close> for a group that took no part in the match.
\<close>

fun ngroups :: "regex \<Rightarrow> nat" where
  "ngroups (Alt a b) = ngroups a + ngroups b"
| "ngroups (Seq a b) = ngroups a + ngroups b"
| "ngroups (Group n r) = Suc (ngroups r)"
| "ngroups r = 0"

definition groups :: "regex \<Rightarrow> (nat \<times> string) list \<Rightarrow> string option list" where
  "groups r caps = map (map_of caps) [1..<Suc (ngroups r)]"

text \<open>
  The test \<open>r'(\d+)' in pattern\<close> of \<open>_compile_patterns\<close>, on the syntax tree: the
  pattern has a group that is \<open>\d+\<close>.
\<close>

fun has_digit_group :: "regex \<Rightarrow> bool" where
  "has_digit_group (Alt a b) \<longleftrightarrow> has_digit_group a \<or> has_digit_group b"
| "has_digit_group (Seq a b) \<longleftrightarrow> has_digit_group a \<or> has_digit_group b"
| "has_digit_group (Group n r) \<longleftrightarrow> r = Plus Digit \<or> has_digit_group r"
| "has_digit_group r \<longleftrightarrow> False"

subsection \<open>The catalogue\<close>

text \<open>
  \<open>MULTILANG_COMMANDS\<close>: for every command the trigger patterns of each language, in the
  order of the source, the key and the anchor phrase of the fuzzy stage. \<open>CHR 0xE9\<close> is
  the character U+00E9.
\<close>

record command_data =
  triggers :: "(language \<times> regex list) list"
  key :: "string option"
  fuzzy_target :: "string option"

definition MULTILANG_COMMANDS :: "(string \<times> command_data) list" where
  "MULTILANG_COMMANDS =
    [(''next_slide'',
      \<lparr>triggers =
         [(ENGLISH,
            [Lit ''next'', Lit ''forward'', Lit ''advance'', Lit ''go right'',
             Lit ''next slide'']),
          (SPANISH,
            [Lit ''siguiente'', Lit ''adelante'', Lit (''pr'' @ [CHR 0xF3] @ ''xima''),
             Lit ''ir a la derecha'']),
          (FRENCH,
            [Lit ''suivant'', Lit ''avancer'', Lit (''aller '' @ [CHR 0xE0] @ '' droite''),
             Lit ''prochaine diapo'']),
          (GERMAN,
            [Lit (''n'' @ [CHR 0xE4] @ ''chst''), Lit (''vorw'' @ [CHR 0xE4] @ ''rts''),
             Lit ''nach rechts'', Lit (''n'' @ [CHR 0xE4] @ ''chste folie'')]),
          (ITALIAN,
            [Lit ''prossimo'', Lit ''avanti'', Lit ''successivo'', Lit ''prossima diapositiva'']),
          (PORTUGUESE,
            [Lit (''pr'' @ [CHR 0xF3] @ ''ximo''), Lit (''avan'' @ [CHR 0xE7] @ ''ar''),
             Lit ''seguinte'', Lit (''pr'' @ [CHR 0xF3] @ ''ximo slide'')]),
          (CHINESE,
            [Wide [19979, 19968, 24352], Wide [19979, 19968, 20010], Wide [21521, 21069]]),
          (JAPANESE,
            [Wide [27425, 12408], Wide [36914, 12416],
             Wide [27425, 12398, 12473, 12521, 12452, 12489]])],
       key = Some ''right'', fuzzy_target = Some ''next''\<rparr>),
     (''prev_slide'',
      \<lparr>triggers =
         [(ENGLISH,
            [Lit ''previous'', Lit ''back'', Lit ''go back'', Lit ''return'',
             Lit ''last slide'']),
          (SPANISH,
            [Lit ''anterior'', Lit (''atr'' @ [CHR 0xE1] @ ''s''), Lit ''volver'',
             Lit ''diapositiva anterior'']),
          (FRENCH,
            [Lit (''pr'' @ [CHR 0xE9] @ ''c'' @ [CHR 0xE9] @ ''dent''), Lit ''retour'',
             Lit (''aller '' @ [CHR 0xE0] @ '' gauche''),
             Lit (''diapo pr'' @ [CHR 0xE9] @ ''c'' @ [CHR 0xE9] @ ''dente'')]),
          (GERMAN,
            [Lit (''zur'' @ [CHR 0xFC] @ ''ck''), Lit ''vorherig'', Lit ''nach links'',
             Lit ''vorherige folie'']),
          (ITALIAN,
            [Lit ''precedente'', Lit ''indietro'', Lit ''tornare'',
             Lit ''diapositiva precedente'']),
          (PORTUGUESE,
            [Lit ''anterior'', Lit ''voltar'', Lit ''slide anterior'',
             Lit (''para tr'' @ [CHR 0xE1] @ ''s'')]),
          (CHINESE,
            [Wide [19978, 19968, 24352], Wide [19978, 19968, 20010], Wide [21521, 21518]]),
          (JAPANESE,
            [Wide [25147, 12427], Wide [21069, 12408],
             Wide [21069, 12398, 12473, 12521, 12452, 12489]])],
       key = Some ''left'', fuzzy_target = Some ''previous''\<rparr>),
     (''jump_slide'',
      \<lparr>triggers =
         [(ENGLISH,
            [Seq (Alt (Lit ''jump to'') (Alt (Lit ''go to'') (Alt (Lit ''slide'') (Lit ''page''))))
               (Seq (Star Space) (Group 1 (Plus Digit))),
             Seq (Lit ''number'')
               (Seq (Star Space) (Group 1 (Plus Digit)))]),
          (SPANISH,
            [Seq (Alt (Lit ''salta a'') (Alt (Lit ''ve a'') (Alt (Lit ''diapositiva'') (Lit (''p'' @ [CHR 0xE1] @ ''gina'')))))
               (Seq (Star Space) (Group 1 (Plus Digit)))]),
          (FRENCH,
            [Seq (Alt (Lit (''aller '' @ [CHR 0xE0])) (Lit ''diapo''))
               (Seq (Star Space) (Group 1 (Plus Digit))),
             Seq (Lit (''num'' @ [CHR 0xE9] @ ''ro''))
               (Seq (Star Space) (Group 1 (Plus Digit)))]),
          (GERMAN,
            [Seq (Alt (Lit ''gehe zu'') (Alt (Lit ''folie'') (Lit ''seite'')))
               (Seq (Star Space) (Group 1 (Plus Digit)))]),
          (ITALIAN,
            [Seq (Alt (Lit ''vai a'') (Lit ''diapositiva''))
               (Seq (Star Space) (Group 1 (Plus Digit)))]),
          (PORTUGUESE,
            [Seq (Alt (Lit ''ir para'') (Alt (Lit ''slide'') (Lit (''p'' @ [CHR 0xE1] @ ''gina''))))
               (Seq (Star Space) (Group 1 (Plus Digit)))]),
          (CHINESE,
            [Seq (Alt (Wide [36339, 21040]) (Alt (Wide [36716, 21040]) (Wide [24187, 28783, 29255])))
               (Seq (Star Space) (Group 1 (Plus Digit)))]),
          (JAPANESE,
            [Seq (Alt (Wide [12473, 12521, 12452, 12489]) (Wide [12506, 12540, 12472]))
               (Seq (Star Space) (Group 1 (Plus Digit)))])],
       key = None, fuzzy_target = None\<rparr>),
     (''start_show'',
      \<lparr>triggers =
         [(ENGLISH,
            [Lit ''start presentation'', Lit ''begin show'', Lit ''present now'']),
          (SPANISH,
            [Lit (''comenzar presentaci'' @ [CHR 0xF3] @ ''n''), Lit ''iniciar show'',
             Lit ''presentar ahora'']),
          (FRENCH,
            [Lit (''commencer pr'' @ [CHR 0xE9] @ ''sentation''),
             Lit (''d'' @ [CHR 0xE9] @ ''buter diaporama'')]),
          (GERMAN,
            [Lit (''pr'' @ [CHR 0xE4] @ ''sentation starten''), Lit ''show beginnen'']),
          (ITALIAN,
            [Lit ''inizia presentazione'', Lit ''avvia spettacolo'']),
          (PORTUGUESE,
            [Lit (''iniciar apresenta'' @ [CHR 0xE7] @ [CHR 0xE3] @ ''o''),
             Lit (''come'' @ [CHR 0xE7] @ ''ar show'')]),
          (CHINESE,
            [Wide [24320, 22987, 28436, 31034], Wide [24320, 22987, 25918, 26144]]),
          (JAPANESE,
            [Wide [12503, 12524, 12476, 12531, 12486, 12540, 12471, 12519, 12531, 38283, 22987],
             Wide [12473, 12521, 12452, 12489, 12471, 12519, 12540, 38283, 22987]])],
       key = Some ''f5'', fuzzy_target = Some ''start''\<rparr>),
     (''end_show'',
      \<lparr>triggers =
         [(ENGLISH,
            [Lit ''stop presentation'', Lit ''end show'', Lit ''exit show'',
             Lit ''close powerpoint'']),
          (SPANISH,
            [Lit (''detener presentaci'' @ [CHR 0xF3] @ ''n''), Lit ''finalizar show'',
             Lit ''cerrar powerpoint'']),
          (FRENCH,
            [Lit (''arr'' @ [CHR 0xEA] @ ''ter pr'' @ [CHR 0xE9] @ ''sentation''),
             Lit ''quitter diaporama'']),
          (GERMAN,
            [Lit (''pr'' @ [CHR 0xE4] @ ''sentation beenden''), Lit ''show beenden'']),
          (ITALIAN,
            [Lit ''ferma presentazione'', Lit ''termina spettacolo'']),
          (PORTUGUESE,
            [Lit (''parar apresenta'' @ [CHR 0xE7] @ [CHR 0xE3] @ ''o''), Lit ''sair do show'']),
          (CHINESE,
            [Wide [20572, 27490, 28436, 31034], Wide [36864, 20986, 24187, 28783, 29255]]),
          (JAPANESE,
            [Wide [12503, 12524, 12476, 12531, 12486, 12540, 12471, 12519, 12531, 32066, 20102],
             Wide [12473, 12521, 12452, 12489, 12471, 12519, 12540, 32066, 20102]])],
       key = Some ''esc'', fuzzy_target = Some ''end''\<rparr>),
     (''blackout'',
      \<lparr>triggers =
         [(ENGLISH,
            [Lit ''black screen'', Lit ''darken'', Lit ''turn off'']),
          (SPANISH,
            [Lit ''pantalla negra'', Lit ''oscurecer'', Lit ''apagar'']),
          (FRENCH,
            [Lit ([CHR 0xE9] @ ''cran noir''), Lit ''assombrir'']),
          (GERMAN,
            [Lit ''schwarzer bildschirm'', Lit ''verdunkeln'']),
          (ITALIAN,
            [Lit ''schermo nero'', Lit ''scurire'']),
          (PORTUGUESE,
            [Lit ''tela preta'', Lit ''escurecer'']),
          (CHINESE,
            [Wide [40657, 23631], Wide [20851, 38381]]),
          (JAPANESE,
            [Wide [40658, 12356, 30011, 38754], Wide [26263, 12367, 12377, 12427]])],
       key = Some ''b'', fuzzy_target = Some ''black''\<rparr>),
     (''zoom_in'',
      \<lparr>triggers =
         [(ENGLISH,
            [Lit ''zoom in'', Lit ''magnify'', Lit ''enlarge'']),
          (SPANISH,
            [Lit ''zoom in'', Lit ''ampliar'', Lit ''agrandar'']),
          (FRENCH,
            [Lit ''zoom avant'', Lit ''agrandir'']),
          (GERMAN,
            [Lit ''zoom ein'', Lit (''vergr'' @ [CHR 0xF6] @ [CHR 0xDF] @ ''ern'')]),
          (ITALIAN,
            [Lit ''zoom in'', Lit ''ingrandire'']),
          (PORTUGUESE,
            [Lit ''zoom in'', Lit ''ampliar'']),
          (CHINESE,
            [Wide [25918, 22823], Wide [32553, 25918]]),
          (JAPANESE,
            [Wide [12474, 12540, 12512, 12452, 12531], Wide [25313, 22823]])],
       key = None, fuzzy_target = Some ''zoom''\<rparr>),
     (''pen_tool'',
      \<lparr>triggers =
         [(ENGLISH,
            [Lit ''pen tool'', Lit ''draw'', Lit ''annotation'']),
          (SPANISH,
            [Lit ''herramienta pluma'', Lit ''dibujar'']),
          (FRENCH,
            [Lit ''outil stylo'', Lit ''dessiner'']),
          (GERMAN,
            [Lit ''stiftwerkzeug'', Lit ''zeichnen'']),
          (ITALIAN,
            [Lit ''strumento penna'', Lit ''disegnare'']),
          (PORTUGUESE,
            [Lit ''ferramenta caneta'', Lit ''desenhar'']),
          (CHINESE,
            [Wide [31508, 24037, 20855], Wide [32472, 21046]]),
          (JAPANESE,
            [Wide [12506, 12531, 12484, 12540, 12523], Wide [25551, 30011]])],
       key = Some ''ctrl+p'', fuzzy_target = Some ''pen''\<rparr>),
     (''exit_program'',
      \<lparr>triggers =
         [(ENGLISH,
            [Lit ''terminate program'', Lit ''kill system'', Lit ''shutdown voice'']),
          (SPANISH,
            [Lit ''terminar programa'', Lit ''apagar sistema'']),
          (FRENCH,
            [Lit ''terminer programme'',
             Lit (''arr'' @ [CHR 0xEA] @ ''ter syst'' @ [CHR 0xE8] @ ''me'')]),
          (GERMAN,
            [Lit ''programm beenden'', Lit ''system herunterfahren'']),
          (ITALIAN,
            [Lit ''termina programma'', Lit ''spegni sistema'']),
          (PORTUGUESE,
            [Lit ''encerrar programa'', Lit ''desligar sistema'']),
          (CHINESE,
            [Wide [36864, 20986, 31243, 24207], Wide [20851, 38381, 31995, 32479]]),
          (JAPANESE,
            [Wide [12503, 12525, 12464, 12521, 12512, 32066, 20102],
             Wide [12471, 12473, 12486, 12512, 32066, 20102]])],
       key = None, fuzzy_target = Some ''exit''\<rparr>)]"

text \<open>\<open>get_patterns_for_language(language, command)\<close>.\<close>

definition get_patterns_for_language :: "language \<Rightarrow> string \<Rightarrow> regex list" where
  "get_patterns_for_language lang command =
     (case map_of MULTILANG_COMMANDS command of
        None \<Rightarrow> []
      | Some cmd_data \<Rightarrow>
          (case map_of (triggers cmd_data) lang of Some ps \<Rightarrow> ps | None \<Rightarrow> []))"

subsection \<open>The controller's matcher\<close>

record config =
  FUZZY_THRESHOLD :: int
  PRIMARY_LANGUAGE :: language
  SUPPORTED_LANGUAGES :: "language list"

text \<open>The defaults of \<open>Config\<close>, for the fields the matcher reads.\<close>

definition Config :: config where
  "Config =
     \<lparr>FUZZY_THRESHOLD = 80, PRIMARY_LANGUAGE = ENGLISH,
      SUPPORTED_LANGUAGES = [ENGLISH, SPANISH, FRENCH, GERMAN]\<rparr>"

record compiled_pattern =
  re :: regex
  cmd :: string
  pattern_language :: language
  is_regex :: bool

text \<open>
  \<open>_compile_patterns\<close>: for every command of the catalogue, every supported language and
  every pattern of that pair, in this order.
\<close>

definition compile_patterns :: "language list \<Rightarrow> compiled_pattern list" where
  "compile_patterns supported =
     concat (map (\<lambda>(command, data).
       concat (map (\<lambda>lang.
         map (\<lambda>pattern.
               \<lparr>re = pattern, cmd = command, pattern_language = lang,
                is_regex = has_digit_group pattern\<rparr>)
           (get_patterns_for_language lang command))
         supported))
       MULTILANG_COMMANDS)"

record controller =
  controller_config :: config
  patterns :: "compiled_pattern list"

definition PowerPointControllerV53 :: "config \<Rightarrow> controller" where
  "PowerPointControllerV53 cfg =
     \<lparr>controller_config = cfg, patterns = compile_patterns (SUPPORTED_LANGUAGES cfg)\<rparr>"

datatype match_method = Regex | Fuzzy | NoMethod

datatype match_error = IndexError

type_synonym match_result = "string option \<times> string option \<times> int \<times> match_method"

text \<open>
  The first loop of \<open>match_command\<close>. \<open>None\<close>: no pattern of the language matched.
  \<open>match.groups()[0]\<close> raises \<open>IndexError\<close> on a pattern without a group.
\<close>

fun regex_stage ::
  "compiled_pattern list \<Rightarrow> string \<Rightarrow> language \<Rightarrow> (match_error + match_result) option" where
  "regex_stage [] txt lang = None"
| "regex_stage (p # ps) txt lang =
     (if pattern_language p \<noteq> lang then regex_stage ps txt lang
      else
        (case search (re p) txt of
           None \<Rightarrow> regex_stage ps txt lang
         | Some m \<Rightarrow>
             Some (if is_regex p
                   then (case groups (re p) m of
                           [] \<Rightarrow> Inl IndexError
                         | params # _ \<Rightarrow> Inr (Some (cmd p), params, 100, Regex))
                   else Inr (Some (cmd p), None, 100, Regex))))"

text \<open>
  The second loop, over the catalogue, with the best command and score so far.
  \<open>partial_ratio\<close> is \<open>fuzz.partial_ratio\<close> of the library \<open>thefuzz\<close>.
\<close>

fun fuzzy_stage ::
  "(string \<Rightarrow> string \<Rightarrow> int) \<Rightarrow> (string \<times> command_data) list \<Rightarrow> string \<Rightarrow> language \<Rightarrow>
   string option \<times> int \<Rightarrow> string option \<times> int" where
  "fuzzy_stage partial_ratio [] txt lang best = best"
| "fuzzy_stage partial_ratio ((command, data) # rest) txt lang (best_cmd, best_score) =
     (if lang \<notin> fst ` set (triggers data)
      then fuzzy_stage partial_ratio rest txt lang (best_cmd, best_score)
      else
        (case fuzzy_target data of
           None \<Rightarrow> fuzzy_stage partial_ratio rest txt lang (best_cmd, best_score)
         | Some target \<Rightarrow>
             if target = [] then fuzzy_stage partial_ratio rest txt lang (best_cmd, best_score)
             else
               (let score = partial_ratio target txt
                in if score > best_score
                   then fuzzy_stage partial_ratio rest txt lang (Some command, score)
                   else fuzzy_stage partial_ratio rest txt lang (best_cmd, best_score))))"

definition match_command ::
  "(string \<Rightarrow> string \<Rightarrow> int) \<Rightarrow> controller \<Rightarrow> string \<Rightarrow> language \<Rightarrow> match_error + match_result" where
  "match_command partial_ratio self txt lang =
     (case regex_stage (patterns self) txt lang of
        Some r \<Rightarrow> r
      | None \<Rightarrow>
          (case fuzzy_stage partial_ratio MULTILANG_COMMANDS txt lang (None, 0) of
             (best_cmd, best_score) \<Rightarrow>
               if best_score \<ge> FUZZY_THRESHOLD (controller_config self)
               then Inr (best_cmd, None, best_score, Fuzzy)
               else Inr (None, None, 0, NoMethod)))"

subsection \<open>The patterns of one language\<close>

lemma regex_stage_filter:
  "regex_stage ps t lang = regex_stage (filter (\<lambda>p. pattern_language p = lang) ps) t lang"
  by (induction ps) (simp_all split: option.splits)

text \<open>The English patterns of a controller with the default supported languages, in order.\<close>

lemma english_patterns:
  "filter (\<lambda>p. pattern_language p = ENGLISH) (compile_patterns [ENGLISH, SPANISH, FRENCH, GERMAN]) =
     [\<lparr>re = Lit ''next'',
        cmd = ''next_slide'', pattern_language = ENGLISH, is_regex = False\<rparr>,
      \<lparr>re = Lit ''forward'',
        cmd = ''next_slide'', pattern_language = ENGLISH, is_regex = False\<rparr>,
      \<lparr>re = Lit ''advance'',
        cmd = ''next_slide'', pattern_language = ENGLISH, is_regex = False\<rparr>,
      \<lparr>re = Lit ''go right'',
        cmd = ''next_slide'', pattern_language = ENGLISH, is_regex = False\<rparr>,
      \<lparr>re = Lit ''next slide'',
        cmd = ''next_slide'', pattern_language = ENGLISH, is_regex = False\<rparr>,
      \<lparr>re = Lit ''previous'',
        cmd = ''prev_slide'', pattern_language = ENGLISH, is_regex = False\<rparr>,
      \<lparr>re = Lit ''back'',
        cmd = ''prev_slide'', pattern_language = ENGLISH, is_regex = False\<rparr>,
      \<lparr>re = Lit ''go back'',
        cmd = ''prev_slide'', pattern_language = ENGLISH, is_regex = False\<rparr>,
      \<lparr>re = Lit ''return'',
        cmd = ''prev_slide'', pattern_language = ENGLISH, is_regex = False\<rparr>,
      \<lparr>re = Lit ''last slide'',
        cmd = ''prev_slide'', pattern_language = ENGLISH, is_regex = False\<rparr>,
      \<lparr>re = Seq (Alt (Lit ''jump to'') (Alt (Lit ''go to'') (Alt (Lit ''slide'') (Lit ''page'')))) (Seq (Star Space) (Group 1 (Plus Digit))),
        cmd = ''jump_slide'', pattern_language = ENGLISH, is_regex = True\<rparr>,
      \<lparr>re = Seq (Lit ''number'') (Seq (Star Space) (Group 1 (Plus Digit))),
        cmd = ''jump_slide'', pattern_language = ENGLISH, is_regex = True\<rparr>,
      \<lparr>re = Lit ''start presentation'',
        cmd = ''start_show'', pattern_language = ENGLISH, is_regex = False\<rparr>,
      \<lparr>re = Lit ''begin show'',
        cmd = ''start_show'', pattern_language = ENGLISH, is_regex = False\<rparr>,
      \<lparr>re = Lit ''present now'',
        cmd = ''start_show'', pattern_language = ENGLISH, is_regex = False\<rparr>,
      \<lparr>re = Lit ''stop presentation'',
        cmd = ''end_show'', pattern_language = ENGLISH, is_regex = False\<rparr>,
      \<lparr>re = Lit ''end show'',
        cmd = ''end_show'', pattern_language = ENGLISH, is_regex = False\<rparr>,
      \<lparr>re = Lit ''exit show'',
        cmd = ''end_show'', pattern_language = ENGLISH, is_regex = False\<rparr>,
      \<lparr>re = Lit ''close powerpoint'',
        cmd = ''end_show'', pattern_language = ENGLISH, is_regex = False\<rparr>,
      \<lparr>re = Lit ''black screen'',
        cmd = ''blackout'', pattern_language = ENGLISH, is_regex = False\<rparr>,
      \<lparr>re = Lit ''darken'',
        cmd = ''blackout'', pattern_language = ENGLISH, is_regex = False\<rparr>,
      \<lparr>re = Lit ''turn off'',
        cmd = ''blackout'', pattern_language = ENGLISH, is_regex = False\<rparr>,
      \<lparr>re = Lit ''zoom in'',
        cmd = ''zoom_in'', pattern_language = ENGLISH, is_regex = False\<rparr>,
      \<lparr>re = Lit ''magnify'',
        cmd = ''zoom_in'', pattern_language = ENGLISH, is_regex = False\<rparr>,
      \<lparr>re = Lit ''enlarge'',
        cmd = ''zoom_in'', pattern_language = ENGLISH, is_regex = False\<rparr>,
      \<lparr>re = Lit ''pen tool'',
        cmd = ''pen_tool'', pattern_language = ENGLISH, is_regex = False\<rparr>,
      \<lparr>re = Lit ''draw'',
        cmd = ''pen_tool'', pattern_language = ENGLISH, is_regex = False\<rparr>,
      \<lparr>re = Lit ''annotation'',
        cmd = ''pen_tool'', pattern_language = ENGLISH, is_regex = False\<rparr>,
      \<lparr>re = Lit ''terminate program'',
        cmd = ''exit_program'', pattern_language = ENGLISH, is_regex = False\<rparr>,
      \<lparr>re = Lit ''kill system'',
        cmd = ''exit_program'', pattern_language = ENGLISH, is_regex = False\<rparr>,
      \<lparr>re = Lit ''shutdown voice'',
        cmd = ''exit_program'', pattern_language = ENGLISH, is_regex = False\<rparr>]"
  by (simp add: compile_patterns_def MULTILANG_COMMANDS_def get_patterns_for_language_def)

lemma default_regex_stage:
  "regex_stage (patterns (PowerPointControllerV53 (Config\<lparr>FUZZY_THRESHOLD := threshold\<rparr>))) t ENGLISH =
     regex_stage (filter (\<lambda>p. pattern_language p = ENGLISH)
       (compile_patterns [ENGLISH, SPANISH, FRENCH, GERMAN])) t ENGLISH"
  using regex_stage_filter [of "compile_patterns [ENGLISH, SPANISH, FRENCH, GERMAN]" t ENGLISH]
  by (simp add: PowerPointControllerV53_def Config_def)

subsection \<open>Patterns that capture a number\<close>



text \<open>A parametric command: one of its trigger patterns captures a number.\<close>

definition parametric_command :: "string \<Rightarrow> bool" where
  "parametric_command command =
     (case map_of MULTILANG_COMMANDS command of
        None \<Rightarrow> False
      | Some data \<Rightarrow> list_ex (\<lambda>(lang, ps). list_ex has_digit_group ps) (triggers data))"

text \<open>The commands that the fuzzy stage can return: those with an anchor phrase.\<close>

definition anchored :: "(string \<times> command_data) list \<Rightarrow> string list" where
  "anchored cmds =
     map fst (filter (\<lambda>(command, data). fuzzy_target data \<noteq> None \<and> fuzzy_target data \<noteq> Some []) cmds)"










text \<open>A literal is found when it occurs somewhere in the text, up to the case of letters.\<close>

lemma lit_prefix:
  "map lower (take (length p) s) = map lower p \<longleftrightarrow> (\<exists>v. map lower s = map lower p @ v)"
proof
  assume h: "map lower (take (length p) s) = map lower p"
  have "map lower s = map lower (take (length p) s) @ map lower (drop (length p) s)"
    by (metis append_take_drop_id map_append)
  with h show "\<exists>v. map lower s = map lower p @ v" by auto
next
  assume "\<exists>v. map lower s = map lower p @ v"
  then obtain v where v: "map lower s = map lower p @ v" by blast
  have "map lower (take (length p) s) = take (length p) (map lower s)"
    by (simp add: take_map)
  also have "\<dots> = map lower p" using v by simp
  finally show "map lower (take (length p) s) = map lower p" .
qed

lemma search_Lit:
  "search (Lit p) t = (if \<exists>u v. map lower t = u @ map lower p @ v then Some [] else None)"
proof (induction t)
  case Nil
  have "(\<exists>u v. map lower [] = u @ map lower p @ v) \<longleftrightarrow> p = []" by auto
  then show ?case by auto
next
  case (Cons c t)
  show ?case
  proof (cases "map lower (take (length p) (c # t)) = map lower p")
    case True
    then obtain v where "map lower (c # t) = [] @ map lower p @ v"
      unfolding lit_prefix by auto
    then have "\<exists>u v. map lower (c # t) = u @ map lower p @ v" by blast
    with True show ?thesis by (simp del: map_eq_Cons_conv)
  next
    case False
    then have nopre: "\<not> (\<exists>v. map lower (c # t) = map lower p @ v)"
      unfolding lit_prefix .
    have "(\<exists>u v. map lower (c # t) = u @ map lower p @ v) \<longleftrightarrow>
          (\<exists>u v. map lower t = u @ map lower p @ v)"
    proof
      assume "\<exists>u v. map lower (c # t) = u @ map lower p @ v"
      then obtain u v where uv: "map lower (c # t) = u @ map lower p @ v" by blast
      with nopre have "u \<noteq> []" by auto
      then obtain x u' where "u = x # u'" by (cases u) auto
      with uv have "map lower t = u' @ map lower p @ v" by simp
      then show "\<exists>u v. map lower t = u @ map lower p @ v" by blast
    next
      assume "\<exists>u v. map lower t = u @ map lower p @ v"
      then obtain u v where "map lower t = u @ map lower p @ v" by blast
      then have "map lower (c # t) = (lower c # u) @ map lower p @ v" by simp
      then show "\<exists>u v. map lower (c # t) = u @ map lower p @ v" by blast
    qed
    with False Cons.IH show ?thesis by (simp del: map_eq_Cons_conv)
  qed
qed

subsection \<open>Facts about the catalogue\<close>


lemma anchored_not_parametric:
  "\<forall>command \<in> set (anchored MULTILANG_COMMANDS). \<not> parametric_command command"
  by (simp add: anchored_def parametric_command_def MULTILANG_COMMANDS_def)

lemma jump_slide_parametric: "parametric_command ''jump_slide''"
  by (simp add: parametric_command_def MULTILANG_COMMANDS_def)



subsection \<open>The two stages\<close>


lemma regex_stage_method:
  "regex_stage ps t lang = Some (Inr (c, param, score, method)) \<Longrightarrow> method = Regex"
  by (induction ps) (auto split: if_splits option.splits list.splits)

lemma fuzzy_stage_result:
  "fst (fuzzy_stage partial_ratio cmds t lang (best_cmd, best_score)) = best_cmd \<or>
   (\<exists>command \<in> set (anchored cmds).
      fst (fuzzy_stage partial_ratio cmds t lang (best_cmd, best_score)) = Some command)"
proof (induction cmds arbitrary: best_cmd best_score)
  case Nil
  then show ?case by simp
next
  case (Cons x cmds)
  obtain command data where x: "x = (command, data)" by (cases x)
  have sub: "set (anchored cmds) \<subseteq> set (anchored (x # cmds))"
    by (auto simp: anchored_def)
  show ?case
  proof (cases "lang \<in> fst ` set (triggers data) \<and> fuzzy_target data \<noteq> None \<and>
      fuzzy_target data \<noteq> Some [] \<and> partial_ratio (the (fuzzy_target data)) t > best_score")
    case True
    then obtain target where target: "fuzzy_target data = Some target" "target \<noteq> []"
      by auto
    with True x have step: "fuzzy_stage partial_ratio (x # cmds) t lang (best_cmd, best_score) =
        fuzzy_stage partial_ratio cmds t lang (Some command, partial_ratio target t)"
      by simp
    from target x have mem: "command \<in> set (anchored (x # cmds))"
      by (simp add: anchored_def)
    from Cons.IH [of "Some command" "partial_ratio target t"] sub mem step
    show ?thesis by auto
  next
    case False
    with x have step: "fuzzy_stage partial_ratio (x # cmds) t lang (best_cmd, best_score) =
        fuzzy_stage partial_ratio cmds t lang (best_cmd, best_score)"
      by (auto split: option.splits)
    from Cons.IH [of best_cmd best_score] sub step
    show ?thesis by auto
  qed
qed

subsection \<open>Claims about the matcher\<close>



lemma controller_config_init: "controller_config (PowerPointControllerV53 cfg) = cfg"
  by (simp add: PowerPointControllerV53_def)

text \<open>
  Claim C2, as stated, says that \<open>can you please go to the next one\<close> is resolved by the
  fuzzy stage at threshold 80 and rejected at threshold 99. The text contains the English
  trigger \<open>next\<close>, so the regex stage resolves it at either threshold; the scorer below
  gives every anchor the score 90, which the claim's fuzzy stage would accept at 80 and
  reject at 99.
\<close>

theorem next_one_is_a_regex_match:
  "match_command (\<lambda>anchor t. 90) (PowerPointControllerV53 Config)
     ''can you please go to the next one'' ENGLISH =
     Inr (Some ''next_slide'', None, 100, Regex) \<and>
   match_command (\<lambda>anchor t. 90) (PowerPointControllerV53 (Config\<lparr>FUZZY_THRESHOLD := 99\<rparr>))
     ''can you please go to the next one'' ENGLISH \<noteq>
     Inr (None, None, 0, NoMethod)"
  using default_regex_stage [of 80 "''can you please go to the next one''"]
    default_regex_stage [of 99 "''can you please go to the next one''"]
  by (simp add: Config_def match_command_def english_patterns lower_def)

text \<open>
  Claim C2, amended: with the default catalogue, \<open>can you please go to the next one\<close> in
  English is resolved by the regex stage to \<open>next_slide\<close> with score 100 and method
  \<open>Regex\<close>, the trigger \<open>next\<close> occurring in the text, whatever the fuzzy threshold (80,
  99 or any other) and whatever the similarity scores.
\<close>

theorem next_one_regex_at_every_threshold:
  "match_command partial_ratio (PowerPointControllerV53 (Config\<lparr>FUZZY_THRESHOLD := threshold\<rparr>))
     ''can you please go to the next one'' ENGLISH =
     Inr (Some ''next_slide'', None, 100, Regex)"
proof -
  have "regex_stage (patterns (PowerPointControllerV53 (Config\<lparr>FUZZY_THRESHOLD := threshold\<rparr>)))
      ''can you please go to the next one'' ENGLISH =
      Some (Inr (Some ''next_slide'', None, 100, Regex))"
    by (simp add: default_regex_stage english_patterns lower_def)
  then show ?thesis
    by (simp add: match_command_def)
qed

text \<open>
  Claim C3: for every text and language, a result with method \<open>Fuzzy\<close> has no parameter
  and its command is not parametric; a parametric command, such as \<open>jump_slide\<close>, is
  only ever returned with method \<open>Regex\<close>. This holds for every threshold, every scorer
  and every list of compiled patterns.
\<close>

theorem fuzzy_never_parametric:
  "(match_command partial_ratio self t lang = Inr (command, param, score, Fuzzy) \<longrightarrow>
      param = None \<and> command \<noteq> Some ''jump_slide'' \<and>
      (\<forall>c. command = Some c \<longrightarrow> \<not> parametric_command c)) \<and>
   (match_command partial_ratio self t lang = Inr (Some c, param, score, meth) \<and>
      parametric_command c \<longrightarrow> meth = Regex) \<and>
   parametric_command ''jump_slide''"
proof -
  have fuzzy: "param = None \<and> (\<forall>c. command = Some c \<longrightarrow> \<not> parametric_command c)"
    if h: "match_command partial_ratio self t lang = Inr (command, param, score, Fuzzy)"
    for command param score
  proof (cases "regex_stage (patterns self) t lang")
    case (Some r)
    with h have "regex_stage (patterns self) t lang = Some (Inr (command, param, score, Fuzzy))"
      by (simp add: match_command_def)
    from regex_stage_method [OF this] show ?thesis by simp
  next
    case None
    obtain best_cmd best_score where
      f: "fuzzy_stage partial_ratio MULTILANG_COMMANDS t lang (None, 0) = (best_cmd, best_score)"
      by (cases "fuzzy_stage partial_ratio MULTILANG_COMMANDS t lang (None, 0)")
    with None h have res: "command = best_cmd" "param = None"
      by (auto simp: match_command_def split: if_splits)
    from fuzzy_stage_result [of partial_ratio MULTILANG_COMMANDS t lang None 0] f
    have "best_cmd = None \<or> (\<exists>c \<in> set (anchored MULTILANG_COMMANDS). best_cmd = Some c)"
      by simp
    with anchored_not_parametric res show ?thesis by auto
  qed
  have regex_only: "meth = Regex"
    if h: "match_command partial_ratio self t lang = Inr (Some c, param, score, meth)"
      and c: "parametric_command c"
    for c param score meth
  proof (cases meth)
    case Regex
    then show ?thesis .
  next
    case Fuzzy
    with h fuzzy [of "Some c" param score] c show ?thesis by simp
  next
    case NoMethod
    with h have "regex_stage (patterns self) t lang = None"
      using regex_stage_method [of "patterns self" t lang "Some c" param score meth]
      by (cases "regex_stage (patterns self) t lang") (auto simp: match_command_def)
    with h NoMethod show ?thesis
      by (auto simp: match_command_def split: prod.splits if_splits)
  qed
  from fuzzy regex_only jump_slide_parametric show ?thesis by blast
qed

theorem fuzzy_never_parametric_witness:
  "match_command (\<lambda>anchor t. if anchor = ''next'' then 90 else 0) (PowerPointControllerV53 Config)
     ''nxt please'' ENGLISH = Inr (Some ''next_slide'', None, 90, Fuzzy) \<and>
   \<not> parametric_command ''next_slide'' \<and>
   match_command (\<lambda>anchor t. 0) (PowerPointControllerV53 Config) ''jump to slide 5'' ENGLISH =
     Inr (Some ''jump_slide'', Some ''5'', 100, Regex) \<and>
   parametric_command ''jump_slide''"
proof -
  have a: "match_command (\<lambda>anchor t. if anchor = ''next'' then 90 else 0) (PowerPointControllerV53 Config)
     ''nxt please'' ENGLISH = Inr (Some ''next_slide'', None, 90, Fuzzy)"
    using default_regex_stage [of 80 "''nxt please''"]
    by (simp add: Config_def match_command_def english_patterns lower_def MULTILANG_COMMANDS_def
        controller_config_init)
  have b: "match_command (\<lambda>anchor t. 0) (PowerPointControllerV53 Config) ''jump to slide 5'' ENGLISH =
     Inr (Some ''jump_slide'', Some ''5'', 100, Regex)"
    using default_regex_stage [of 80 "''jump to slide 5''"]
    by (simp add: Config_def match_command_def english_patterns lower_def isspace_def
        isdigit_def groups_def)
  from a b
    fuzzy_never_parametric [of "\<lambda>anchor t. if anchor = ''next'' then 90 else 0"
      "PowerPointControllerV53 Config" "''nxt please''" ENGLISH "Some ''next_slide''" None 90 "''next_slide''"]
    fuzzy_never_parametric [of "\<lambda>anchor t. 0"
      "PowerPointControllerV53 Config" "''jump to slide 5''" ENGLISH _ "Some ''5''" 100 "''jump_slide''" Regex]
  show ?thesis by simp
qed

end
